theory Spec2Isabelle
  imports Main
begin

section \<open>The Notepad console command executor\<close>

text \<open>
  A shallow embedding of \<^verbatim>\<open>applications/notepad/executors/console-executor.py\<close>:
  the loader of the action mappings, the reader of the overlay data file, the writer of
  the command queue, \<^verbatim>\<open>process_result\<close> and the poll loop of \<^verbatim>\<open>run\<close>.

  Conventions of the model.
  \<^item> A Python \<^verbatim>\<open>str\<close> is a \<^typ>\<open>string\<close> whose characters are read as the code points
    U+0000 to U+00FF.
  \<^item> The values \<^verbatim>\<open>json.load\<close> returns are the datatype \<open>json\<close>; \<open>JNull\<close> is Python's
    \<^verbatim>\<open>None\<close>. JSON numbers are integers (a number with a fraction or an exponent, a
    Python float, is outside the model). A \<^verbatim>\<open>dict\<close> is an association list with
    distinct keys, in insertion order.
  \<^item> An exception is a value of \<open>py_error\<close>; a function that can raise returns
    \<open>py_error + 'a\<close>.
  \<^item> What the file system does is an input: each read of a file is described by a
    \<open>file_read\<close>, each attempt to open the queue file by a \<open>py_error option\<close>. The
    queue file is the text written to it, before the newline translation of the platform.
  \<^item> Every \<^verbatim>\<open>print\<close> appends one \<open>line\<close> to the field \<open>stdout\<close>; the clock of the
    dispatch line and the length of \<^verbatim>\<open>time.sleep\<close> are not modelled.
  \<^item> The field \<open>effects\<close> is no state of the program: it records, in the order in which
    they happen, every call of the queue writer and every addition to the processed
    set, so that the order of the two is a property of the result.
\<close>

subsection \<open>Python values\<close>

datatype json =
    JNull
  | JBool bool
  | JInt int
  | JStr string
  | JArr "json list"
  | JObj "(string \<times> json) list"

datatype py_error =
    FileNotFoundError
  | JSONDecodeError
  | UnicodeDecodeError
  | OSError
  | AttributeError
  | TypeError
  | KeyError string

text \<open>Truth value testing: \<^verbatim>\<open>if data:\<close>, \<^verbatim>\<open>mods if mods else 'None'\<close>.\<close>

fun truthy :: "json \<Rightarrow> bool" where
  "truthy JNull = False"
| "truthy (JBool b) = b"
| "truthy (JInt i) = (i \<noteq> 0)"
| "truthy (JStr s) = (s \<noteq> [])"
| "truthy (JArr xs) = (xs \<noteq> [])"
| "truthy (JObj kvs) = (kvs \<noteq> [])"

text \<open>\<^verbatim>\<open>str.strip()\<close>: the characters below U+0100 for which \<^verbatim>\<open>str.isspace\<close> holds.\<close>

definition py_isspace :: "char \<Rightarrow> bool" where
  "py_isspace c = (c \<in> set [CHR 0x09, CHR 0x0A, CHR 0x0B, CHR 0x0C, CHR 0x0D,
     CHR 0x1C, CHR 0x1D, CHR 0x1E, CHR 0x1F, CHR 0x20, CHR 0x85, CHR 0xA0])"

definition py_strip :: "string \<Rightarrow> string" where
  "py_strip s = rev (dropWhile py_isspace (rev (dropWhile py_isspace s)))"

text \<open>
  \<^verbatim>\<open>str(v)\<close>, which the f-string of the result key applies to the timestamp: a string
  is itself, every other value is its \<^verbatim>\<open>repr\<close>.
\<close>

fun decimal :: "nat \<Rightarrow> string" where
  "decimal n =
     (if n < 10 then [char_of (48 + n)]
      else decimal (n div 10) @ [char_of (48 + n mod 10)])"

declare decimal.simps [simp del]

definition str_int :: "int \<Rightarrow> string" where
  "str_int i = (if i < 0 then CHR ''-'' # decimal (nat (- i)) else decimal (nat i))"

definition hexdigit :: "nat \<Rightarrow> char" where
  "hexdigit d = ''0123456789abcdef'' ! d"

definition py_isprintable :: "char \<Rightarrow> bool" where
  "py_isprintable c =
     (let n = (of_char c :: nat)
      in (32 \<le> n \<and> n < 127) \<or> (161 \<le> n \<and> n \<noteq> 173))"

definition repr_char :: "char \<Rightarrow> char \<Rightarrow> string" where
  "repr_char q c =
     (if c = q \<or> c = CHR 0x5C then [CHR 0x5C, c]
      else if c = CHR 0x09 then [CHR 0x5C, CHR ''t'']
      else if c = CHR 0x0A then [CHR 0x5C, CHR ''n'']
      else if c = CHR 0x0D then [CHR 0x5C, CHR ''r'']
      else if py_isprintable c then [c]
      else [CHR 0x5C, CHR ''x'', hexdigit (of_char c div 16), hexdigit (of_char c mod 16)])"

definition repr_str :: "string \<Rightarrow> string" where
  "repr_str s =
     (let q = (if CHR 0x27 \<in> set s \<and> CHR 0x22 \<notin> set s then CHR 0x22 else CHR 0x27)
      in q # concat (map (repr_char q) s) @ [q])"

fun py_join :: "string \<Rightarrow> string list \<Rightarrow> string" where
  "py_join sep [] = []"
| "py_join sep [x] = x"
| "py_join sep (x # y # ys) = x @ sep @ py_join sep (y # ys)"

fun py_repr :: "json \<Rightarrow> string" where
  "py_repr JNull = ''None''"
| "py_repr (JBool b) = (if b then ''True'' else ''False'')"
| "py_repr (JInt i) = str_int i"
| "py_repr (JStr s) = repr_str s"
| "py_repr (JArr xs) = ''['' @ py_join '', '' (map py_repr xs) @ '']''"
| "py_repr (JObj kvs) =
     ''{'' @ py_join '', '' (map (\<lambda>(k, v). repr_str k @ '': '' @ py_repr v) kvs) @ ''}''"

fun py_str :: "json \<Rightarrow> string" where
  "py_str (JStr s) = s"
| "py_str v = py_repr v"

text \<open>\<^verbatim>\<open>d.get(k, default)\<close> on a dict.\<close>

definition dict_get :: "(string \<times> json) list \<Rightarrow> string \<Rightarrow> json \<Rightarrow> json" where
  "dict_get d k dflt = (case map_of d k of None \<Rightarrow> dflt | Some v \<Rightarrow> v)"

text \<open>
  \<^verbatim>\<open>option['name']\<close>: a dict without the key raises KeyError; a list or a string
  takes no string index, and the other values take no index at all (TypeError).
\<close>

definition getitem :: "json \<Rightarrow> string \<Rightarrow> py_error + json" where
  "getitem v k =
     (case v of
        JObj d \<Rightarrow> (case map_of d k of None \<Rightarrow> Inl (KeyError k) | Some x \<Rightarrow> Inr x)
      | _ \<Rightarrow> Inl TypeError)"

text \<open>
  \<^verbatim>\<open>for option in options\<close>: a list yields its elements, a dict its keys, a string
  its characters; nothing else is iterable.
\<close>

definition py_iter :: "json \<Rightarrow> py_error + json list" where
  "py_iter v =
     (case v of
        JArr xs \<Rightarrow> Inr xs
      | JObj d \<Rightarrow> Inr (map (\<lambda>(k, x). JStr k) d)
      | JStr s \<Rightarrow> Inr (map (\<lambda>c. JStr [c]) s)
      | _ \<Rightarrow> Inl TypeError)"

text \<open>
  A value used as a dict key: lists and dicts are unhashable; \<^verbatim>\<open>True\<close> and
  \<^verbatim>\<open>False\<close> are the keys \<^verbatim>\<open>1\<close> and \<^verbatim>\<open>0\<close>.
\<close>

definition dict_key :: "json \<Rightarrow> py_error + json" where
  "dict_key v =
     (case v of
        JArr xs \<Rightarrow> Inl TypeError
      | JObj d \<Rightarrow> Inl TypeError
      | JBool b \<Rightarrow> Inr (JInt (if b then 1 else 0))
      | _ \<Rightarrow> Inr v)"

text \<open>\<^verbatim>\<open>d[k] = v\<close>: an existing key keeps its place, a new one goes last.\<close>

fun dict_set :: "'k \<Rightarrow> 'v \<Rightarrow> ('k \<times> 'v) list \<Rightarrow> ('k \<times> 'v) list" where
  "dict_set k v [] = [(k, v)]"
| "dict_set k v ((k', v') # d) = (if k' = k then (k', v) # d else (k', v') # dict_set k v d)"

subsection \<open>The state of the process and its environment\<close>

record action =
  command :: json
  description :: json

datatype line =
    Banner
  | Rule
  | LoadError py_error
  | LoadFailed
  | LoadedCount nat
  | Watching
  | ReadError py_error
  | WriteError py_error
  | Queued json
  | WheelResult string
  | Description json
  | MappedMods json
  | Shutdown
  | LoopError py_error

text \<open>
  The calls of \<^verbatim>\<open>write_command_queue\<close> (with the commands it is given) and of
  \<^verbatim>\<open>processed_results.add\<close> (with the key), in the order of execution.
\<close>

datatype effect = Emitted "json list" | Recorded string

text \<open>
  \<open>ACTION_MAPPINGS\<close> is the module's global dict; \<open>last_result\<close>,
  \<open>last_timestamp\<close> and \<open>processed_results\<close> are the attributes of the
  \<^verbatim>\<open>NotepadCommandExecutor\<close>; \<open>queue_file\<close> is the text of
  \<^verbatim>\<open>COMMAND_QUEUE_FILE\<close> (empty when the file does not exist: mode \<^verbatim>\<open>'a'\<close> creates
  it); \<open>stdout\<close> is what has been printed; \<open>effects\<close> is the record of the calls
  described above.
\<close>

record world =
  ACTION_MAPPINGS :: "(json \<times> action) list"
  last_result :: json
  last_timestamp :: json
  processed_results :: "string set"
  queue_file :: string
  stdout :: "line list"
  effects :: "effect list"

text \<open>
  One attempt to read a file: it does not exist, or opening and parsing it raises, or
  \<^verbatim>\<open>json.load\<close> returns a value.
\<close>

datatype file_read = NoFile | Raises py_error | Parses json

text \<open>
  One iteration of the poll loop as the environment sees it.
  \<^item> \<open>Poll rd fs\<close>: the read of the data file is \<open>rd\<close>; creating the queue directory
    and opening the queue file would do \<open>fs\<close> (\<open>None\<close>: they succeed; \<open>Some e\<close>: one of
    them raises \<open>e\<close>, before anything is written); the sleep that ends the iteration
    returns.
  \<^item> \<open>PollInterrupted rd fs\<close>: the same, but a KeyboardInterrupt arrives during the
    sleep that ends the iteration. The sleep of line 167 is inside the \<^verbatim>\<open>try\<close> block;
    the sleep of line 173 is inside the handler of \<^verbatim>\<open>Exception\<close>, where nothing catches
    a KeyboardInterrupt.
  \<^item> \<open>Interrupt\<close>: a KeyboardInterrupt arrives inside the \<^verbatim>\<open>try\<close> block before the read
    of the data file has returned.
\<close>

datatype tick =
    Interrupt
  | Poll file_read "py_error option"
  | PollInterrupted file_read "py_error option"

text \<open>
  \<open>Polling\<close>: the loop is still running. \<open>Terminated\<close>: \<open>run\<close> has returned.
  \<open>Uncaught\<close>: a KeyboardInterrupt has left \<open>run\<close> as an exception.
\<close>

datatype status = Polling | Terminated | Uncaught

definition emit :: "line list \<Rightarrow> world \<Rightarrow> world" where
  "emit ls w = w\<lparr>stdout := stdout w @ ls\<rparr>"

subsection \<open>load_action_mappings\<close>

text \<open>
  The body of the loop: the right-hand side is evaluated first (\<^verbatim>\<open>option['command']\<close>,
  then \<^verbatim>\<open>option['description']\<close>), then the key \<^verbatim>\<open>option['name']\<close>, then the key
  is hashed and the entry stored. The first exception ends the loop; the entries stored
  before it stay in the dict.
\<close>

fun add_options :: "json list \<Rightarrow> (json \<times> action) list \<Rightarrow> py_error option \<times> (json \<times> action) list" where
  "add_options [] m = (None, m)"
| "add_options (opt # opts) m =
     (case getitem opt ''command'' of
        Inl e \<Rightarrow> (Some e, m)
      | Inr c \<Rightarrow>
          (case getitem opt ''description'' of
             Inl e \<Rightarrow> (Some e, m)
           | Inr d \<Rightarrow>
               (case getitem opt ''name'' of
                  Inl e \<Rightarrow> (Some e, m)
                | Inr n \<Rightarrow>
                    (case dict_key n of
                       Inl e \<Rightarrow> (Some e, m)
                     | Inr k \<Rightarrow>
                         add_options opts (dict_set k \<lparr>command = c, description = d\<rparr> m)))))"

text \<open>
  \<^verbatim>\<open>options = data if isinstance(data, list) else data.get('options', [])\<close>: only a
  dict has \<^verbatim>\<open>get\<close>.
\<close>

definition options_of :: "json \<Rightarrow> py_error + json" where
  "options_of data =
     (case data of
        JArr xs \<Rightarrow> Inr data
      | JObj d \<Rightarrow> Inr (dict_get d ''options'' (JArr []))
      | _ \<Rightarrow> Inl AttributeError)"

definition load_failed :: "py_error \<Rightarrow> world \<Rightarrow> bool \<times> world" where
  "load_failed e w = (False, emit [LoadError e] w)"

definition load_action_mappings :: "file_read \<Rightarrow> world \<Rightarrow> bool \<times> world" where
  "load_action_mappings cfg w =
     (case cfg of
        NoFile \<Rightarrow> load_failed FileNotFoundError w
      | Raises e \<Rightarrow> load_failed e w
      | Parses data \<Rightarrow>
          (case options_of data of
             Inl e \<Rightarrow> load_failed e w
           | Inr options \<Rightarrow>
               (case py_iter options of
                  Inl e \<Rightarrow> load_failed e w
                | Inr opts \<Rightarrow>
                    (case add_options opts (ACTION_MAPPINGS w) of
                       (None, m) \<Rightarrow> (True, w\<lparr>ACTION_MAPPINGS := m\<rparr>)
                     | (Some e, m) \<Rightarrow> load_failed e (w\<lparr>ACTION_MAPPINGS := m\<rparr>)))))"

subsection \<open>read_data_file\<close>

definition read_data_file :: "file_read \<Rightarrow> world \<Rightarrow> json \<times> world" where
  "read_data_file rd w =
     (case rd of
        NoFile \<Rightarrow> (JNull, w)
      | Raises e \<Rightarrow>
          (if e = JSONDecodeError then (JNull, w) else (JNull, emit [ReadError e] w))
      | Parses v \<Rightarrow> (v, w))"

subsection \<open>write_command_queue and execute_notepad_command\<close>

text \<open>
  The loop over the commands inside the \<^verbatim>\<open>with\<close> block: \<^verbatim>\<open>cmd + '\n'\<close> raises
  TypeError unless \<open>cmd\<close> is a string. Leaving the block closes the file, so what was
  written before an exception is in the file. The command is written as it is, whatever
  characters it holds.
\<close>

fun write_all :: "json list \<Rightarrow> string \<Rightarrow> py_error option \<times> string" where
  "write_all [] f = (None, f)"
| "write_all (cmd # cmds) f =
     (case cmd of
        JStr s \<Rightarrow> write_all cmds (f @ s @ [CHR 0x0A])
      | _ \<Rightarrow> (Some TypeError, f))"

text \<open>The call is recorded in \<open>effects\<close> as it starts.\<close>

definition write_command_queue :: "py_error option \<Rightarrow> json list \<Rightarrow> world \<Rightarrow> bool \<times> world" where
  "write_command_queue fs commands w =
     (let w0 = w\<lparr>effects := effects w @ [Emitted commands]\<rparr>
      in case fs of
           Some e \<Rightarrow> (False, emit [WriteError e] w0)
         | None \<Rightarrow>
             (case write_all commands (queue_file w0) of
                (None, f) \<Rightarrow> (True, w0\<lparr>queue_file := f\<rparr>)
              | (Some e, f) \<Rightarrow> (False, emit [WriteError e] (w0\<lparr>queue_file := f\<rparr>))))"

definition execute_notepad_command :: "py_error option \<Rightarrow> json \<Rightarrow> world \<Rightarrow> bool \<times> world" where
  "execute_notepad_command fs cmd w = write_command_queue fs [cmd] (emit [Queued cmd] w)"

subsection \<open>process_result\<close>

text \<open>
  \<^verbatim>\<open>data.get\<close> raises AttributeError unless \<open>data\<close> is a dict, and \<^verbatim>\<open>.strip()\<close>
  unless the result is a string; both happen before anything is changed. The value
  returned by \<^verbatim>\<open>execute_notepad_command\<close> is dropped. \<open>w2\<close> is the process after line
  140, \<open>w3\<close> after line 143, where the addition is recorded in \<open>effects\<close>.
\<close>

definition process_result :: "py_error option \<Rightarrow> json \<Rightarrow> world \<Rightarrow> (py_error + bool) \<times> world" where
  "process_result fs data w =
     (case data of
        JObj d \<Rightarrow>
          (case dict_get d ''result'' (JStr []) of
             JStr r \<Rightarrow>
               (let result = py_strip r;
                    timestamp = dict_get d ''timestamp'' JNull;
                    mods = dict_get d ''mods'' (JArr []);
                    result_key = result @ ''_'' @ py_str timestamp
                in if result_key \<in> processed_results w then (Inr False, w)
                   else if result = [] then (Inr False, w)
                   else
                     (case map_of (ACTION_MAPPINGS w) (JStr result) of
                        Some a \<Rightarrow>
                          (let w1 = emit [WheelResult result, Description (description a),
                                      MappedMods (if truthy mods then mods else JStr ''None'')] w;
                               w2 = snd (execute_notepad_command fs (command a) w1);
                               w3 = w2\<lparr>processed_results := insert result_key (processed_results w2),
                                       effects := effects w2 @ [Recorded result_key]\<rparr>
                           in (Inr True, w3))
                      | None \<Rightarrow> (Inr False, w)))
           | _ \<Rightarrow> (Inl AttributeError, w))
      | _ \<Rightarrow> (Inl AttributeError, w))"

subsection \<open>run\<close>

text \<open>
  The \<^verbatim>\<open>while True\<close> loop, run against the iterations the environment provides. When
  they are used up the loop is still polling. An exception of an iteration is printed
  and the loop goes on. A KeyboardInterrupt inside the \<^verbatim>\<open>try\<close> block is caught: the line
  \<^verbatim>\<open>Shutdown requested\<close> is printed and the loop ends. A KeyboardInterrupt during the
  sleep of the handler (line 173) is not caught and leaves \<open>run\<close>.
\<close>

fun poll_loop :: "tick list \<Rightarrow> world \<Rightarrow> status \<times> world" where
  "poll_loop [] w = (Polling, w)"
| "poll_loop (Interrupt # ts) w = (Terminated, emit [Shutdown] w)"
| "poll_loop (Poll rd fs # ts) w =
     (case read_data_file rd w of
        (data, w1) \<Rightarrow>
          if truthy data then
            (case process_result fs data w1 of
               (Inl e, w2) \<Rightarrow> poll_loop ts (emit [LoopError e] w2)
             | (Inr b, w2) \<Rightarrow> poll_loop ts w2)
          else poll_loop ts w1)"
| "poll_loop (PollInterrupted rd fs # ts) w =
     (case read_data_file rd w of
        (data, w1) \<Rightarrow>
          if truthy data then
            (case process_result fs data w1 of
               (Inl e, w2) \<Rightarrow> (Uncaught, emit [LoopError e] w2)
             | (Inr b, w2) \<Rightarrow> (Terminated, emit [Shutdown] w2))
          else (Terminated, emit [Shutdown] w1))"

definition run :: "file_read \<Rightarrow> tick list \<Rightarrow> world \<Rightarrow> status \<times> world" where
  "run cfg ts w =
     (case load_action_mappings cfg (emit [Banner, Rule] w) of
        (False, w1) \<Rightarrow> (Terminated, emit [LoadFailed] w1)
      | (True, w1) \<Rightarrow>
          poll_loop ts (emit [LoadedCount (length (ACTION_MAPPINGS w1)), Watching] w1))"

text \<open>
  The process: the module's globals and a fresh executor, then \<^verbatim>\<open>executor.run()\<close>.
  When \<open>run\<close> returns the script ends and the interpreter exits with status 0; the
  source never calls \<^verbatim>\<open>sys.exit\<close>. When a KeyboardInterrupt leaves \<open>run\<close> the interpreter
  prints the traceback and ends abnormally: the status is not 0 (the model takes 130,
  which a POSIX shell reports for a process ended by SIGINT; other platforms report
  another non-zero status). \<open>q\<close> is the text the queue file holds at the start.
\<close>

definition init_world :: "string \<Rightarrow> world" where
  "init_world q =
     \<lparr>ACTION_MAPPINGS = [], last_result = JNull, last_timestamp = JNull,
      processed_results = {}, queue_file = q, stdout = [], effects = []\<rparr>"

definition main :: "file_read \<Rightarrow> tick list \<Rightarrow> string \<Rightarrow> nat option \<times> world" where
  "main cfg ts q =
     (case run cfg ts (init_world q) of
        (Terminated, w) \<Rightarrow> (Some 0, w)
      | (Polling, w) \<Rightarrow> (None, w)
      | (Uncaught, w) \<Rightarrow> (Some 130, w))"

subsection \<open>The event a snapshot stands for\<close>

text \<open>
  The trimmed result (line 120), the timestamp (line 121) and the result key
  (line 125) of a snapshot. \<open>event_result\<close> is \<open>None\<close> where \<open>process_result\<close> raises.
\<close>

definition event_result :: "json \<Rightarrow> string option" where
  "event_result data =
     (case data of
        JObj d \<Rightarrow> (case dict_get d ''result'' (JStr []) of JStr r \<Rightarrow> Some (py_strip r) | _ \<Rightarrow> None)
      | _ \<Rightarrow> None)"

definition event_timestamp :: "json \<Rightarrow> json" where
  "event_timestamp data = (case data of JObj d \<Rightarrow> dict_get d ''timestamp'' JNull | _ \<Rightarrow> JNull)"

definition result_key :: "string \<Rightarrow> json \<Rightarrow> string" where
  "result_key result timestamp = result @ ''_'' @ py_str timestamp"

subsection \<open>The lines of the queue file\<close>

text \<open>
  No function of the source: the reading of the queue file that its format fixes
  (plain text, one command per line, each line ended by a newline), needed to speak of
  the lines a write appends. \<open>queue_lines\<close> gives the newline-terminated lines of a
  text, without their newlines; text after the last newline is no line yet.
  \<open>split_lines\<close> carries the line read so far, reversed.
\<close>

fun split_lines :: "string \<Rightarrow> string \<Rightarrow> string list" where
  "split_lines cur [] = []"
| "split_lines cur (c # cs) =
     (if c = CHR 0x0A then rev cur # split_lines [] cs else split_lines (c # cur) cs)"

definition queue_lines :: "string \<Rightarrow> string list" where
  "queue_lines t = split_lines [] t"

subsection \<open>The example of the specification\<close>

text \<open>
  One mapping entry, \<^verbatim>\<open>Fire Rune\<close> with the command \<^verbatim>\<open>CAST_FIRE\<close>, and the snapshot
  \<^verbatim>\<open>{"result": "Fire Rune", "timestamp": "T1", "mods": ["modA"]}\<close>. \<open>example_world\<close> is
  the process after loading \<open>example_options\<close>, with an empty queue file.
\<close>

definition example_options :: json where
  "example_options =
     JArr [JObj [(''name'', JStr ''Fire Rune''), (''command'', JStr ''CAST_FIRE''),
                 (''description'', JStr ''Casts fire rune'')]]"

definition example_snapshot :: json where
  "example_snapshot =
     JObj [(''result'', JStr ''Fire Rune''), (''timestamp'', JStr ''T1''),
           (''mods'', JArr [JStr ''modA''])]"

definition example_world :: world where
  "example_world =
     \<lparr>ACTION_MAPPINGS =
        [(JStr ''Fire Rune'',
          \<lparr>command = JStr ''CAST_FIRE'', description = JStr ''Casts fire rune''\<rparr>)],
      last_result = JNull, last_timestamp = JNull, processed_results = {},
      queue_file = [], stdout = [], effects = []\<rparr>"

definition blank_snapshot :: json where
  "blank_snapshot = JObj [(''result'', JStr [CHR '' '', CHR 0x09]), (''timestamp'', JInt 7)]"

definition unmapped_snapshot :: json where
  "unmapped_snapshot = JObj [(''result'', JStr ''Ice Rune''), (''timestamp'', JStr ''T2'')]"

definition example_dispatched :: world where
  "example_dispatched = snd (process_result None example_snapshot example_world)"

text \<open>The same result with a later timestamp.\<close>

definition later_snapshot :: json where
  "later_snapshot = JObj [(''result'', JStr ''Fire Rune''), (''timestamp'', JStr ''T2'')]"

text \<open>
  A mapping entry whose command holds a newline, as the JSON string \<^verbatim>\<open>"CAST\nFIRE"\<close>
  gives it.
\<close>

definition multiline_options :: json where
  "multiline_options =
     JArr [JObj [(''name'', JStr ''Fire Rune''),
                 (''command'', JStr (''CAST'' @ [CHR 0x0A] @ ''FIRE'')),
                 (''description'', JStr ''Casts fire rune'')]]"

text \<open>Two snapshots with different results and timestamps, and a table that maps both results.\<close>

definition collide_a :: json where
  "collide_a = JObj [(''result'', JStr ''Fire_Rune''), (''timestamp'', JStr ''T1'')]"

definition collide_b :: json where
  "collide_b = JObj [(''result'', JStr ''Fire''), (''timestamp'', JStr ''Rune_T1'')]"

definition collide_world :: world where
  "collide_world =
     \<lparr>ACTION_MAPPINGS =
        [(JStr ''Fire_Rune'', \<lparr>command = JStr ''CAST_FIRE_RUNE'', description = JStr ''Rune''\<rparr>),
         (JStr ''Fire'', \<lparr>command = JStr ''CAST_FIRE'', description = JStr ''Fire''\<rparr>)],
      last_result = JNull, last_timestamp = JNull, processed_results = {},
      queue_file = [], stdout = [], effects = []\<rparr>"

section \<open>Properties\<close>

subsection \<open>Fields that the operations leave alone\<close>

lemma emit_keeps [simp]:
  "processed_results (emit ls w) = processed_results w"
  "ACTION_MAPPINGS (emit ls w) = ACTION_MAPPINGS w"
  "queue_file (emit ls w) = queue_file w"
  "stdout (emit ls w) = stdout w @ ls"
  "effects (emit ls w) = effects w"
  by (simp_all add: emit_def)

lemma write_command_queue_keeps:
  "processed_results (snd (write_command_queue fs cmds w)) = processed_results w"
  "ACTION_MAPPINGS (snd (write_command_queue fs cmds w)) = ACTION_MAPPINGS w"
  by (auto simp: write_command_queue_def Let_def split: option.splits prod.splits)

lemma execute_notepad_command_keeps:
  "processed_results (snd (execute_notepad_command fs c w)) = processed_results w"
  "ACTION_MAPPINGS (snd (execute_notepad_command fs c w)) = ACTION_MAPPINGS w"
  by (simp_all add: execute_notepad_command_def write_command_queue_keeps)

lemma read_data_file_keeps:
  "processed_results (snd (read_data_file rd w)) = processed_results w"
  "ACTION_MAPPINGS (snd (read_data_file rd w)) = ACTION_MAPPINGS w"
  "queue_file (snd (read_data_file rd w)) = queue_file w"
  by (simp_all add: read_data_file_def split: file_read.splits)

subsection \<open>The branches of process_result\<close>

lemma event_resultE:
  assumes "event_result data = Some r"
  obtains d s where "data = JObj d" "dict_get d ''result'' (JStr []) = JStr s" "py_strip s = r"
  using assms by (auto simp: event_result_def split: json.splits)

lemma process_result_seen:
  assumes "event_result data = Some r"
    and "result_key r (event_timestamp data) \<in> processed_results w"
  shows "process_result fs data w = (Inr False, w)"
proof -
  from assms(1) obtain d s
    where "data = JObj d" "dict_get d ''result'' (JStr []) = JStr s" "py_strip s = r"
    by (rule event_resultE)
  with assms(2) show ?thesis
    by (simp add: process_result_def Let_def result_key_def event_timestamp_def)
qed

lemma process_result_dispatch:
  assumes "event_result data = Some r" and "r \<noteq> []"
    and "result_key r (event_timestamp data) \<notin> processed_results w"
    and "map_of (ACTION_MAPPINGS w) (JStr r) = Some a"
  shows "fst (process_result fs data w) = Inr True"
    and "processed_results (snd (process_result fs data w)) =
           insert (result_key r (event_timestamp data)) (processed_results w)"
    and "queue_file (snd (process_result fs data w)) =
           queue_file (snd (write_command_queue fs [command a] w))"
proof -
  from assms(1) obtain d s
    where d: "data = JObj d" "dict_get d ''result'' (JStr []) = JStr s" "py_strip s = r"
    by (rule event_resultE)
  with assms(2-4) show "fst (process_result fs data w) = Inr True"
    by (simp add: process_result_def Let_def result_key_def event_timestamp_def)
  from d assms(2-4) show "processed_results (snd (process_result fs data w)) =
           insert (result_key r (event_timestamp data)) (processed_results w)"
    by (simp add: process_result_def Let_def result_key_def event_timestamp_def
        execute_notepad_command_keeps)
  from d assms(2-4) show "queue_file (snd (process_result fs data w)) =
           queue_file (snd (write_command_queue fs [command a] w))"
    by (auto simp add: process_result_def Let_def result_key_def event_timestamp_def
        execute_notepad_command_def write_command_queue_def
        split: option.splits prod.splits json.splits)
qed

lemma process_result_True:
  assumes "fst (process_result fs data w) = Inr True"
  obtains r a where "event_result data = Some r" "r \<noteq> []"
    "result_key r (event_timestamp data) \<notin> processed_results w"
    "map_of (ACTION_MAPPINGS w) (JStr r) = Some a"
  using assms
  by (auto simp: process_result_def Let_def result_key_def event_timestamp_def event_result_def
      split: json.splits if_splits option.splits)

lemma process_result_keeps:
  "processed_results w \<subseteq> processed_results (snd (process_result fs data w))"
  "ACTION_MAPPINGS (snd (process_result fs data w)) = ACTION_MAPPINGS w"
  by (auto simp: process_result_def Let_def execute_notepad_command_keeps
      split: json.splits if_splits option.splits)

lemma event_truthy:
  assumes "event_result data = Some r" and "r \<noteq> []"
  shows "truthy data"
proof -
  from assms(1) obtain d s
    where d: "data = JObj d" "dict_get d ''result'' (JStr []) = JStr s" "py_strip s = r"
    by (rule event_resultE)
  with assms(2) have "d \<noteq> []" by (auto simp: dict_get_def py_strip_def)
  with d show ?thesis by simp
qed

lemma py_strip_blank: "(py_strip s = []) = (\<forall>c\<in>set s. py_isspace c)"
proof -
  have "(\<forall>c\<in>set (dropWhile py_isspace s). py_isspace c) = (\<forall>c\<in>set s. py_isspace c)"
  proof
    assume a: "\<forall>c\<in>set (dropWhile py_isspace s). py_isspace c"
    have "set s = set (takeWhile py_isspace s) \<union> set (dropWhile py_isspace s)"
      by (metis set_append takeWhile_dropWhile_id)
    with a show "\<forall>c\<in>set s. py_isspace c"
      by (auto dest: set_takeWhileD)
  next
    assume "\<forall>c\<in>set s. py_isspace c"
    then show "\<forall>c\<in>set (dropWhile py_isspace s). py_isspace c"
      by (auto dest: set_dropWhileD)
  qed
  then show ?thesis
    by (simp add: py_strip_def)
qed

subsection \<open>The poll loop\<close>

lemma poll_loop_processed_mono:
  "processed_results w \<subseteq> processed_results (snd (poll_loop ts w))"
proof (induction ts w rule: poll_loop.induct)
  case (1 w)
  then show ?case by simp
next
  case (2 ts w)
  then show ?case by simp
next
  case (3 rd fs ts w)
  obtain data w1 where r: "read_data_file rd w = (data, w1)"
    by (cases "read_data_file rd w")
  then have w1: "processed_results w1 = processed_results w"
    using read_data_file_keeps(1)[of rd w] by simp
  show ?case
  proof (cases "truthy data")
    case False
    with 3(3)[OF r[symmetric]] r w1 show ?thesis by simp
  next
    case True
    obtain x w2 where p: "process_result fs data w1 = (x, w2)"
      by (cases "process_result fs data w1")
    then have w2: "processed_results w1 \<subseteq> processed_results w2"
      using process_result_keeps(1)[of w1 fs data] by simp
    show ?thesis
    proof (cases x)
      case (Inl e)
      from 3(1)[OF r[symmetric] True p[symmetric] Inl] r True p Inl w1 w2
      show ?thesis by auto
    next
      case (Inr b)
      from 3(2)[OF r[symmetric] True p[symmetric] Inr] r True p Inr w1 w2
      show ?thesis by auto
    qed
  qed
next
  case (4 rd fs ts w)
  obtain data w1 where r: "read_data_file rd w = (data, w1)"
    by (cases "read_data_file rd w")
  then have w1: "processed_results w1 = processed_results w"
    using read_data_file_keeps(1)[of rd w] by simp
  obtain x w2 where p: "process_result fs data w1 = (x, w2)"
    by (cases "process_result fs data w1")
  then have "processed_results w1 \<subseteq> processed_results w2"
    using process_result_keeps(1)[of w1 fs data] by simp
  with r p w1 show ?case by (auto split: sum.splits)
qed

lemma poll_loop_seen:
  assumes "\<forall>t\<in>set ts. \<exists>fs data. t = Poll (Parses data) fs \<and> event_result data = Some r \<and>
             result_key r (event_timestamp data) \<in> processed_results w"
  shows "poll_loop ts w = (Polling, w)"
  using assms
proof (induction ts)
  case Nil
  then show ?case by simp
next
  case (Cons t ts)
  then obtain fs data where t: "t = Poll (Parses data) fs" "event_result data = Some r"
      "result_key r (event_timestamp data) \<in> processed_results w"
    by auto
  then have "process_result fs data w = (Inr False, w)"
    by (simp add: process_result_seen)
  with t Cons show ?case by (simp add: read_data_file_def)
qed

lemma poll_loop_no_data:
  assumes "\<forall>t\<in>set ts. \<exists>fs. t = Poll NoFile fs \<or> t = Poll (Raises JSONDecodeError) fs"
  shows "poll_loop (ts @ rest) w = poll_loop rest w"
  using assms
proof (induction ts)
  case Nil
  then show ?case by simp
next
  case (Cons t ts)
  then obtain fs where "t = Poll NoFile fs \<or> t = Poll (Raises JSONDecodeError) fs"
    by auto
  with Cons show ?case by (auto simp: read_data_file_def)
qed

subsection \<open>Evaluating the example\<close>

lemmas run_defs =
  main_def run_def init_world_def load_action_mappings_def load_failed_def options_of_def
  py_iter_def getitem_def dict_key_def read_data_file_def process_result_def
  execute_notepad_command_def write_command_queue_def emit_def dict_get_def py_strip_def
  py_isspace_def Let_def event_result_def event_timestamp_def result_key_def

lemmas example_defs =
  example_options_def example_snapshot_def example_world_def blank_snapshot_def
  unmapped_snapshot_def

subsection \<open>The queue writer\<close>

lemma write_all_strings:
  "write_all (map JStr cmds) f = (None, f @ concat (map (\<lambda>c. c @ [CHR 0x0A]) cmds))"
  by (induction cmds arbitrary: f) simp_all

lemma write_all_None:
  "write_all commands f = (None, f') \<Longrightarrow> \<exists>cmds. commands = map JStr cmds"
proof (induction commands arbitrary: f)
  case Nil
  then show ?case by simp
next
  case (Cons c cs)
  then obtain s where c: "c = JStr s" by (cases c) auto
  with Cons.prems have "write_all cs (f @ s @ [CHR 0x0A]) = (None, f')" by simp
  then obtain cmds where "cs = map JStr cmds" by (auto dest: Cons.IH)
  with c have "c # cs = map JStr (s # cmds)" by simp
  then show ?case by (rule exI)
qed

lemma write_one_failed:
  "fst (write_command_queue fs [cmd] w) = False \<Longrightarrow>
     queue_file (snd (write_command_queue fs [cmd] w)) = queue_file w"
  by (auto simp: write_command_queue_def Let_def split: option.splits json.splits)

subsection \<open>Facts about the example\<close>

lemma example_event: "event_result example_snapshot = Some ''Fire Rune''"
  by (simp add: example_snapshot_def event_result_def dict_get_def py_strip_def py_isspace_def)

lemma example_key:
  "result_key ''Fire Rune'' (event_timestamp example_snapshot) = ''Fire Rune_T1''"
  by (simp add: example_snapshot_def event_timestamp_def dict_get_def result_key_def)

lemma example_fresh:
  "result_key ''Fire Rune'' (event_timestamp example_snapshot) \<notin> processed_results example_world"
  by (simp add: example_world_def)

lemma example_mapped:
  "map_of (ACTION_MAPPINGS example_world) (JStr ''Fire Rune'') =
     Some \<lparr>command = JStr ''CAST_FIRE'', description = JStr ''Casts fire rune''\<rparr>"
  by (simp add: example_world_def)

lemma example_first: "fst (process_result None example_snapshot example_world) = Inr True"
  by (simp add: run_defs example_defs)

lemma example_later:
  "example_dispatched =
     snd (poll_loop [Poll NoFile None, Poll (Raises JSONDecodeError) None]
       (snd (process_result None example_snapshot example_world)))"
  by (simp add: example_dispatched_def read_data_file_def)

lemma example_three_polls:
  "queue_file (snd (main (Parses example_options)
     [Poll (Parses example_snapshot) None, Poll (Parses example_snapshot) None,
      Poll (Parses example_snapshot) None] [])) = ''CAST_FIRE'' @ [CHR 0x0A]"
  by (simp add: run_defs example_defs)

lemma example_one_poll:
  "queue_file (snd (poll_loop [Poll (Parses example_snapshot) None] example_world)) =
     ''CAST_FIRE'' @ [CHR 0x0A]"
  by (simp add: run_defs example_defs)

lemma example_dispatched_keys: "processed_results example_dispatched = {''Fire Rune_T1''}"
  by (simp add: example_dispatched_def run_defs example_defs)

subsection \<open>An empty mapping table\<close>

lemma process_result_no_mappings:
  assumes "ACTION_MAPPINGS w = []"
  shows "fst (process_result fs data w) \<noteq> Inr True"
    and "snd (process_result fs data w) = w"
  using assms
  by (auto simp: process_result_def Let_def split: json.splits)

lemma poll_loop_no_mappings:
  assumes "ACTION_MAPPINGS w = []"
  shows "queue_file (snd (poll_loop ts w)) = queue_file w \<and>
         processed_results (snd (poll_loop ts w)) = processed_results w"
  using assms
proof (induction ts arbitrary: w)
  case Nil
  then show ?case by simp
next
  case (Cons t ts)
  show ?case
  proof (cases t)
    case Interrupt
    then show ?thesis by simp
  next
    case (Poll rd fs)
    obtain data w1 where r: "read_data_file rd w = (data, w1)"
      by (cases "read_data_file rd w")
    with read_data_file_keeps[of rd w] Cons.prems
    have w1: "ACTION_MAPPINGS w1 = []" "queue_file w1 = queue_file w"
      "processed_results w1 = processed_results w"
      by simp_all
    obtain x where p: "process_result fs data w1 = (x, w1)"
      using process_result_no_mappings(2)[OF w1(1), of fs data]
      by (cases "process_result fs data w1") simp
    have e: "\<And>ls. ACTION_MAPPINGS (emit ls w1) = []" using w1 by simp
    show ?thesis
      using Poll r p w1 Cons.IH[OF w1(1)] Cons.IH[OF e]
      by (auto split: sum.splits)
  next
    case (PollInterrupted rd fs)
    obtain data w1 where r: "read_data_file rd w = (data, w1)"
      by (cases "read_data_file rd w")
    with read_data_file_keeps[of rd w] Cons.prems
    have w1: "ACTION_MAPPINGS w1 = []" "queue_file w1 = queue_file w"
      "processed_results w1 = processed_results w"
      by simp_all
    obtain x where p: "process_result fs data w1 = (x, w1)"
      using process_result_no_mappings(2)[OF w1(1), of fs data]
      by (cases "process_result fs data w1") simp
    show ?thesis
      using PollInterrupted r p w1 by (auto split: sum.splits)
  qed
qed

subsection \<open>A failed load\<close>

lemma load_failed_world:
  assumes "load_action_mappings cfg w = (False, w1)"
  shows "\<exists>e. stdout w1 = stdout w @ [LoadError e]" and "queue_file w1 = queue_file w"
    and "processed_results w1 = processed_results w"
  using assms
  by (auto simp: load_action_mappings_def load_failed_def
      split: file_read.splits sum.splits prod.splits option.splits)

subsection \<open>Decimal numerals and the separator of the result key\<close>

lemma decimal_value:
  "foldl (\<lambda>a c. 10 * a + (of_char c - 48)) 0 (decimal n) = n"
proof (induction n rule: decimal.induct)
  case (1 n)
  show ?case
  proof (cases "n < 10")
    case True
    then show ?thesis by (subst decimal.simps) simp
  next
    case False
    have "n mod 10 < 10" by simp
    then have "(48 + n mod 10) mod 256 = 48 + n mod 10" by simp
    with False 1 show ?thesis by (subst decimal.simps) simp
  qed
qed

lemma decimal_inj: "decimal m = decimal n \<Longrightarrow> m = n"
  by (metis decimal_value)

lemma decimal_digits: "c \<in> set (decimal n) \<Longrightarrow> 48 \<le> (of_char c :: nat) \<and> (of_char c :: nat) \<le> 57"
proof (induction n rule: decimal.induct)
  case (1 n)
  show ?case
  proof (cases "n < 10")
    case True
    with 1(2) have "c = char_of (48 + n)" by (subst (asm) decimal.simps) simp
    with True show ?thesis by simp
  next
    case False
    with 1(2) have "c \<in> set (decimal (n div 10)) \<or> c = char_of (48 + n mod 10)"
      by (subst (asm) decimal.simps) auto
    moreover have "(48 + n mod 10) mod 256 = 48 + n mod 10" by simp
    moreover have "n mod 10 \<le> 9" by simp
    ultimately show ?thesis using 1(1)[OF False] by auto
  qed
qed

lemma decimal_no_sign: "CHR ''-'' \<notin> set (decimal n)" "CHR ''_'' \<notin> set (decimal n)"
  using decimal_digits[of "CHR ''-''" n] decimal_digits[of "CHR ''_''" n] by auto

lemma str_int_inj: "str_int i = str_int j \<Longrightarrow> i = j"
proof -
  assume a: "str_int i = str_int j"
  have neg: "CHR ''-'' # decimal m \<noteq> decimal n" for m n
    using decimal_no_sign(1)[of n] by (metis list.set_intros(1))
  show ?thesis
  proof (cases "i < 0")
    case True
    note i = this
    show ?thesis
    proof (cases "j < 0")
      case True
      with i a have "nat (- i) = nat (- j)" by (auto simp: str_int_def dest: decimal_inj)
      with i True show ?thesis by simp
    next
      case False
      with i a neg show ?thesis by (auto simp: str_int_def)
    qed
  next
    case False
    note i = this
    show ?thesis
    proof (cases "j < 0")
      case True
      with i a neg[of "nat (- j)" "nat i"] show ?thesis by (auto simp: str_int_def)
    next
      case False
      with i a have "nat i = nat j" by (auto simp: str_int_def dest: decimal_inj)
      with i False show ?thesis by simp
    qed
  qed
qed

lemma str_int_no_underscore: "CHR ''_'' \<notin> set (str_int i)"
  using decimal_no_sign(2) by (simp add: str_int_def)

lemma split_at_first:
  assumes "r1 @ x # s1 = r2 @ x # s2" and "x \<notin> set r1" and "x \<notin> set r2"
  shows "r1 = r2 \<and> s1 = s2"
proof -
  have t: "takeWhile (\<lambda>c. c \<noteq> x) (r @ x # s) = r" if "x \<notin> set r" for r s
    using that by (induction r) auto
  from assms(1) have "takeWhile (\<lambda>c. c \<noteq> x) (r1 @ x # s1) = takeWhile (\<lambda>c. c \<noteq> x) (r2 @ x # s2)"
    by simp
  with assms(2,3) have "r1 = r2" by (simp add: t)
  with assms(1) show ?thesis by simp
qed

lemma split_at_last:
  assumes "r1 @ x # s1 = r2 @ x # s2" and "x \<notin> set s1" and "x \<notin> set s2"
  shows "r1 = r2 \<and> s1 = s2"
proof -
  from assms(1) have "rev (r1 @ x # s1) = rev (r2 @ x # s2)" by simp
  then have "rev s1 @ x # rev r1 = rev s2 @ x # rev r2" by simp
  then have "rev s1 = rev s2 \<and> rev r1 = rev r2"
    using assms(2,3) by (intro split_at_first) simp_all
  then show ?thesis by simp
qed

lemma result_key_eqD:
  assumes eq: "result_key r1 t1 = result_key r2 t2"
    and kind: "(\<exists>s1 s2. t1 = JStr s1 \<and> t2 = JStr s2 \<and>
                 ((CHR ''_'' \<notin> set r1 \<and> CHR ''_'' \<notin> set r2) \<or>
                  (CHR ''_'' \<notin> set s1 \<and> CHR ''_'' \<notin> set s2))) \<or>
               (\<exists>i1 i2. t1 = JInt i1 \<and> t2 = JInt i2)"
  shows "r1 = r2 \<and> t1 = t2"
  using kind
proof (elim disjE exE conjE)
  fix s1 s2
  assume t: "t1 = JStr s1" "t2 = JStr s2" and u: "CHR ''_'' \<notin> set r1" "CHR ''_'' \<notin> set r2"
  from eq t have "r1 @ CHR ''_'' # s1 = r2 @ CHR ''_'' # s2" by (simp add: result_key_def)
  then have "r1 = r2 \<and> s1 = s2" using u by (rule split_at_first)
  with t show ?thesis by simp
next
  fix s1 s2
  assume t: "t1 = JStr s1" "t2 = JStr s2" and u: "CHR ''_'' \<notin> set s1" "CHR ''_'' \<notin> set s2"
  from eq t have "r1 @ CHR ''_'' # s1 = r2 @ CHR ''_'' # s2" by (simp add: result_key_def)
  then have "r1 = r2 \<and> s1 = s2" using u by (rule split_at_last)
  with t show ?thesis by simp
next
  fix i1 i2
  assume t: "t1 = JInt i1" "t2 = JInt i2"
  from eq t have "r1 @ CHR ''_'' # str_int i1 = r2 @ CHR ''_'' # str_int i2"
    by (simp add: result_key_def)
  then have "r1 = r2 \<and> str_int i1 = str_int i2"
    using str_int_no_underscore str_int_no_underscore by (rule split_at_last)
  with t show ?thesis by (auto dest: str_int_inj)
qed

lemma str_int_1: "str_int 1 = ''1''"
  by code_simp

subsection \<open>The order of the effects of a dispatch\<close>

lemma process_result_effects:
  assumes "event_result data = Some r" and "r \<noteq> []"
    and "result_key r (event_timestamp data) \<notin> processed_results w"
    and "map_of (ACTION_MAPPINGS w) (JStr r) = Some a"
  shows "effects (snd (process_result fs data w)) =
           effects w @ [Emitted [command a], Recorded (result_key r (event_timestamp data))]"
proof -
  from assms(1) obtain d s
    where d: "data = JObj d" "dict_get d ''result'' (JStr []) = JStr s" "py_strip s = r"
    by (rule event_resultE)
  have e: "effects (snd (write_command_queue fs cmds w')) = effects w' @ [Emitted cmds]"
    for cmds w'
    by (auto simp: write_command_queue_def Let_def split: option.splits prod.splits)
  from d assms(2-4) show ?thesis
    by (simp add: process_result_def Let_def result_key_def event_timestamp_def
        execute_notepad_command_def e)
qed

subsection \<open>One iteration of the poll loop\<close>

lemma poll_loop_dispatch_one:
  assumes "truthy data"
  shows "poll_loop [Poll (Parses data) fs] w =
     (case fst (process_result fs data w) of
        Inl e \<Rightarrow> (Polling, emit [LoopError e] (snd (process_result fs data w)))
      | Inr b \<Rightarrow> (Polling, snd (process_result fs data w)))"
  using assms by (simp add: read_data_file_def split: prod.splits sum.splits)

lemma later_event: "event_result later_snapshot = Some ''Fire Rune''"
  by (simp add: later_snapshot_def event_result_def dict_get_def py_strip_def py_isspace_def)

lemma later_key:
  "result_key ''Fire Rune'' (event_timestamp later_snapshot) = ''Fire Rune_T2''"
  by (simp add: later_snapshot_def event_timestamp_def dict_get_def result_key_def)

subsection \<open>Lines of the queue file\<close>

lemma split_lines_line:
  "CHR 0x0A \<notin> set l \<Longrightarrow>
     split_lines cur (l @ CHR 0x0A # rest) = (rev cur @ l) # split_lines [] rest"
  by (induction l arbitrary: cur) auto

lemma split_lines_commands:
  "\<forall>c\<in>set cmds. CHR 0x0A \<notin> set c \<Longrightarrow>
     split_lines [] (concat (map (\<lambda>c. c @ [CHR 0x0A]) cmds)) = cmds"
  by (induction cmds) (simp_all add: split_lines_line)

lemma split_lines_append:
  "t \<noteq> [] \<Longrightarrow> last t = CHR 0x0A \<Longrightarrow>
     split_lines cur (t @ u) = split_lines cur t @ split_lines [] u"
proof (induction t arbitrary: cur)
  case Nil
  then show ?case by simp
next
  case (Cons c t)
  show ?case
  proof (cases "t = []")
    case True
    with Cons.prems show ?thesis by simp
  next
    case False
    with Cons.prems have "last t = CHR 0x0A" by simp
    with False Cons.IH show ?thesis by simp
  qed
qed

lemma queue_lines_append:
  assumes "t = [] \<or> last t = CHR 0x0A" and "\<forall>c\<in>set cmds. CHR 0x0A \<notin> set c"
  shows "queue_lines (t @ concat (map (\<lambda>c. c @ [CHR 0x0A]) cmds)) = queue_lines t @ cmds"
proof (cases "t = []")
  case True
  with assms(2) show ?thesis by (simp add: queue_lines_def split_lines_commands)
next
  case False
  with assms(1) have "last t = CHR 0x0A" by simp
  with False assms(2) show ?thesis
    by (simp add: queue_lines_def split_lines_append split_lines_commands)
qed

section \<open>The claims\<close>

text \<open>
  C1. At most one dispatch per event. Once \<open>process_result\<close> has dispatched a snapshot,
  then after any further iterations of the poll loop every snapshot with the same
  trimmed result and the same timestamp is not dispatched: \<open>process_result\<close> returns
  \<open>False\<close> and changes nothing, and polling that snapshot any number of times (whatever
  the file system would do to a write) leaves the process, its queue file included, as
  it was.
\<close>

theorem at_most_once_dispatch:
  assumes first: "fst (process_result fs0 data0 w0) = Inr True"
    and later: "w = snd (poll_loop ts (snd (process_result fs0 data0 w0)))"
    and same: "event_result data = event_result data0"
      "event_timestamp data = event_timestamp data0"
  shows "process_result fs data w = (Inr False, w) \<and>
         poll_loop (map (Poll (Parses data)) fss) w = (Polling, w)"
proof -
  from first obtain r a where r: "event_result data0 = Some r" "r \<noteq> []"
      "result_key r (event_timestamp data0) \<notin> processed_results w0"
      "map_of (ACTION_MAPPINGS w0) (JStr r) = Some a"
    by (rule process_result_True)
  then have "result_key r (event_timestamp data0)
      \<in> processed_results (snd (process_result fs0 data0 w0))"
    by (simp add: process_result_dispatch(2))
  with later have k: "result_key r (event_timestamp data) \<in> processed_results w"
    using poll_loop_processed_mono same(2) by auto
  from r same have e: "event_result data = Some r" by simp
  from e k have "process_result fs data w = (Inr False, w)"
    by (rule process_result_seen)
  moreover from e k have "poll_loop (map (Poll (Parses data)) fss) w = (Polling, w)"
    by (intro poll_loop_seen[where r = r]) auto
  ultimately show ?thesis by simp
qed

theorem at_most_once_dispatch_witness:
  "fst (process_result None example_snapshot example_world) = Inr True \<and>
   process_result None example_snapshot example_dispatched = (Inr False, example_dispatched) \<and>
   poll_loop (map (Poll (Parses example_snapshot)) [None, Some OSError, None]) example_dispatched
     = (Polling, example_dispatched) \<and>
   queue_file (snd (main (Parses example_options)
     [Poll (Parses example_snapshot) None, Poll (Parses example_snapshot) None,
      Poll (Parses example_snapshot) None] [])) = ''CAST_FIRE'' @ [CHR 0x0A]"
  using example_first example_three_polls
    at_most_once_dispatch [OF example_first example_later refl refl,
      of None "[None, Some OSError, None]"]
  by simp

text \<open>
  C2 as stated does not hold: in the dispatch of \<open>example_snapshot\<close> the call of the
  queue writer comes first and the addition of the result key to the processed set
  second.
\<close>

theorem emitted_before_recorded:
  "fst (process_result None example_snapshot example_world) = Inr True \<and>
   effects example_world = [] \<and>
   effects (snd (process_result None example_snapshot example_world)) =
     [Emitted [JStr ''CAST_FIRE''], Recorded ''Fire Rune_T1'']"
  by (simp add: run_defs example_defs)

text \<open>
  C2, amended. In every dispatching execution of \<open>process_result\<close> the result key is
  absent from the processed set at the start, and the execution has exactly two effects
  on the queue and the set, in this order: the command is emitted to the queue writer,
  then the result key is recorded in the processed set, whatever the outcome of the
  write.
\<close>

theorem dispatch_writes_then_marks:
  assumes "fst (process_result fs data w) = Inr True"
  shows "\<exists>r a.
           event_result data = Some r \<and> map_of (ACTION_MAPPINGS w) (JStr r) = Some a \<and>
           result_key r (event_timestamp data) \<notin> processed_results w \<and>
           effects (snd (process_result fs data w)) =
             effects w @ [Emitted [command a], Recorded (result_key r (event_timestamp data))] \<and>
           processed_results (snd (process_result fs data w)) =
             insert (result_key r (event_timestamp data)) (processed_results w)"
proof -
  from assms obtain r a where r: "event_result data = Some r" "r \<noteq> []"
      "result_key r (event_timestamp data) \<notin> processed_results w"
      "map_of (ACTION_MAPPINGS w) (JStr r) = Some a"
    by (rule process_result_True)
  have "effects (snd (process_result fs data w)) =
      effects w @ [Emitted [command a], Recorded (result_key r (event_timestamp data))]"
    using r by (rule process_result_effects)
  moreover have "processed_results (snd (process_result fs data w)) =
      insert (result_key r (event_timestamp data)) (processed_results w)"
    using r by (rule process_result_dispatch(2))
  ultimately show ?thesis using r by blast
qed

theorem dispatch_writes_then_marks_witness:
  "fst (process_result (Some OSError) example_snapshot example_world) = Inr True \<and>
   (\<exists>r a.
     event_result example_snapshot = Some r \<and>
     map_of (ACTION_MAPPINGS example_world) (JStr r) = Some a \<and>
     result_key r (event_timestamp example_snapshot) \<notin> processed_results example_world \<and>
     effects (snd (process_result (Some OSError) example_snapshot example_world)) =
       effects example_world @
         [Emitted [command a], Recorded (result_key r (event_timestamp example_snapshot))] \<and>
     processed_results (snd (process_result (Some OSError) example_snapshot example_world)) =
       insert (result_key r (event_timestamp example_snapshot)) (processed_results example_world))"
proof -
  have h: "fst (process_result (Some OSError) example_snapshot example_world) = Inr True"
    by (simp add: run_defs example_defs)
  from h dispatch_writes_then_marks [OF h] show ?thesis by (rule conjI)
qed

text \<open>
  C3 as stated does not hold: the separator is an underscore, which results and
  timestamps may contain, and a number is rendered like the string of its digits. Two
  snapshots with different results and timestamps have the same result key, and the
  dispatch of one suppresses the other.
\<close>

theorem result_key_collision:
  "event_result collide_a = Some ''Fire_Rune'' \<and> event_timestamp collide_a = JStr ''T1'' \<and>
   event_result collide_b = Some ''Fire'' \<and> event_timestamp collide_b = JStr ''Rune_T1'' \<and>
   result_key ''Fire_Rune'' (JStr ''T1'') = result_key ''Fire'' (JStr ''Rune_T1'') \<and>
   result_key ''Fire'' (JStr ''1'') = result_key ''Fire'' (JInt 1) \<and>
   fst (process_result None collide_b collide_world) = Inr True \<and>
   fst (process_result None collide_b (snd (process_result None collide_a collide_world))) = Inr False"
  by (simp add: run_defs collide_a_def collide_b_def collide_world_def str_int_1)

text \<open>
  C3, amended. The result key separates two events with different (trimmed result,
  timestamp) pairs when both timestamps are strings and either no result or no
  timestamp contains an underscore, and when both timestamps are integers. For such
  events the record of the one does not suppress the other: with only the key of the
  first in the processed set, the second, if it is mapped and not blank, is dispatched.
\<close>

theorem result_key_injective:
  assumes differ: "(r1, t1) \<noteq> (r2, t2)"
    and kind: "(\<exists>s1 s2. t1 = JStr s1 \<and> t2 = JStr s2 \<and>
                 ((CHR ''_'' \<notin> set r1 \<and> CHR ''_'' \<notin> set r2) \<or>
                  (CHR ''_'' \<notin> set s1 \<and> CHR ''_'' \<notin> set s2))) \<or>
               (\<exists>i1 i2. t1 = JInt i1 \<and> t2 = JInt i2)"
  shows "result_key r1 t1 \<noteq> result_key r2 t2 \<and>
         (event_result data = Some r2 \<and> event_timestamp data = t2 \<and> r2 \<noteq> [] \<and>
          map_of (ACTION_MAPPINGS w) (JStr r2) = Some a \<and>
          processed_results w = {result_key r1 t1} \<longrightarrow>
            fst (process_result fs data w) = Inr True)"
proof (intro conjI impI)
  show ne: "result_key r1 t1 \<noteq> result_key r2 t2"
  proof
    assume "result_key r1 t1 = result_key r2 t2"
    then have "r1 = r2 \<and> t1 = t2" using kind by (rule result_key_eqD)
    with differ show False by simp
  qed
  assume a: "event_result data = Some r2 \<and> event_timestamp data = t2 \<and> r2 \<noteq> [] \<and>
          map_of (ACTION_MAPPINGS w) (JStr r2) = Some a \<and>
          processed_results w = {result_key r1 t1}"
  with ne have "result_key r2 (event_timestamp data) \<notin> processed_results w" by auto
  with a show "fst (process_result fs data w) = Inr True"
    by (intro process_result_dispatch(1)[where r = r2 and a = a]) simp_all
qed

theorem result_key_injective_witness:
  "(''Fire Rune'', JStr ''T1'') \<noteq> (''Fire Rune'', JStr ''T2'') \<and>
   result_key ''Fire Rune'' (JStr ''T1'') \<noteq> result_key ''Fire Rune'' (JStr ''T2'') \<and>
   result_key ''Fire_Rune'' (JInt 1) \<noteq> result_key ''Fire'' (JInt 2) \<and>
   processed_results example_dispatched = {result_key ''Fire Rune'' (JStr ''T1'')} \<and>
   fst (process_result None
          (JObj [(''result'', JStr ''Fire Rune''), (''timestamp'', JStr ''T2'')])
          example_dispatched) = Inr True"
proof -
  have k: "processed_results example_dispatched = {result_key ''Fire Rune'' (JStr ''T1'')}"
    by (simp add: example_dispatched_keys result_key_def)
  have e: "event_result (JObj [(''result'', JStr ''Fire Rune''), (''timestamp'', JStr ''T2'')])
      = Some ''Fire Rune''"
    "event_timestamp (JObj [(''result'', JStr ''Fire Rune''), (''timestamp'', JStr ''T2'')])
      = JStr ''T2''"
    by (simp_all add: event_result_def event_timestamp_def dict_get_def py_strip_def py_isspace_def)
  have m: "map_of (ACTION_MAPPINGS example_dispatched) (JStr ''Fire Rune'') =
     Some \<lparr>command = JStr ''CAST_FIRE'', description = JStr ''Casts fire rune''\<rparr>"
    by (simp add: example_dispatched_def process_result_keeps(2) example_mapped)
  from k e m
    result_key_injective [of "''Fire Rune''" "JStr ''T1''" "''Fire Rune''" "JStr ''T2''"
      "JObj [(''result'', JStr ''Fire Rune''), (''timestamp'', JStr ''T2'')]" example_dispatched
      "\<lparr>command = JStr ''CAST_FIRE'', description = JStr ''Casts fire rune''\<rparr>" None]
    result_key_injective [of "''Fire_Rune''" "JInt 1" "''Fire''" "JInt 2"]
  show ?thesis by auto
qed

text \<open>
  C4 as stated does not hold: with no options file the load fails, \<open>run\<close> returns, and
  the process ends with exit status 0.
\<close>

theorem load_failure_exit_zero:
  "fst (load_action_mappings NoFile (emit [Banner, Rule] (init_world []))) = False \<and>
   fst (main NoFile [] []) = Some 0"
  by (simp add: run_defs)

text \<open>
  C4, amended. If \<open>load_action_mappings\<close> fails, the process never enters the poll loop
  (whatever the environment would offer to it): it prints the error of the load and
  \<^verbatim>\<open>Failed to load action mappings\<close>, reads and writes nothing, and terminates with
  exit status 0.
\<close>

theorem load_failure_terminates:
  assumes "load_action_mappings cfg (emit [Banner, Rule] (init_world q)) = (False, w1)"
  shows "main cfg ts q = (Some 0, emit [LoadFailed] w1) \<and>
         (\<exists>e. stdout (snd (main cfg ts q)) = [Banner, Rule, LoadError e, LoadFailed]) \<and>
         queue_file (snd (main cfg ts q)) = q \<and>
         processed_results (snd (main cfg ts q)) = {}"
proof -
  have m: "main cfg ts q = (Some 0, emit [LoadFailed] w1)"
    using assms by (simp add: main_def run_def)
  from load_failed_world(1)[OF assms] obtain e
    where "stdout w1 = stdout (emit [Banner, Rule] (init_world q)) @ [LoadError e]" ..
  then have "stdout (snd (main cfg ts q)) = [Banner, Rule, LoadError e, LoadFailed]"
    by (simp add: m init_world_def)
  then have "\<exists>e. stdout (snd (main cfg ts q)) = [Banner, Rule, LoadError e, LoadFailed]" ..
  with m load_failed_world(2,3)[OF assms] show ?thesis
    by (simp add: init_world_def)
qed

theorem load_failure_terminates_witness:
  "load_action_mappings (Parses (JArr [JObj [(''name'', JStr ''Fire Rune'')]]))
     (emit [Banner, Rule] (init_world ''old'')) =
     (False, emit [Banner, Rule, LoadError (KeyError ''command'')] (init_world ''old'')) \<and>
   main (Parses (JArr [JObj [(''name'', JStr ''Fire Rune'')]]))
     [Poll (Parses example_snapshot) None] ''old'' =
     (Some 0, emit [Banner, Rule, LoadError (KeyError ''command''), LoadFailed] (init_world ''old''))"
proof -
  have h: "load_action_mappings (Parses (JArr [JObj [(''name'', JStr ''Fire Rune'')]]))
     (emit [Banner, Rule] (init_world ''old'')) =
     (False, emit [Banner, Rule, LoadError (KeyError ''command'')] (init_world ''old''))"
    by (simp add: load_action_mappings_def load_failed_def options_of_def py_iter_def
        getitem_def init_world_def emit_def)
  from h load_failure_terminates [OF h, of "[Poll (Parses example_snapshot) None]"]
  show ?thesis by (simp add: emit_def)
qed

text \<open>
  C5. When the write of a dispatch fails (the file system raises, or the command is no
  string), \<open>process_result\<close> still returns \<open>True\<close>, as it does when the write succeeds,
  and raises nothing; the result key is in the processed set; nothing was appended to
  the queue file; the same snapshot is never dispatched again, at once or after any
  further iterations. The poll loop goes on:
  the iteration ends with the loop still polling in the state \<open>process_result\<close> left,
  the remaining iterations run from that state, and a later snapshot that is mapped and
  not yet processed is dispatched by the next iteration, its command appended to the
  queue file.
\<close>

theorem write_failure_drops_event:
  assumes ev: "event_result data = Some r" "r \<noteq> []"
    and fresh: "result_key r (event_timestamp data) \<notin> processed_results w"
    and mapped: "map_of (ACTION_MAPPINGS w) (JStr r) = Some a"
    and failed: "fst (write_command_queue fs [command a] w) = False"
    and w': "w' = snd (process_result fs data w)"
  shows "fst (process_result fs data w) = Inr True \<and>
         fst (process_result fs data w) = fst (process_result None data w) \<and>
         result_key r (event_timestamp data) \<in> processed_results w' \<and>
         queue_file w' = queue_file w \<and>
         process_result fs' data w' = (Inr False, w') \<and>
         process_result fs' data (snd (poll_loop ts w')) = (Inr False, snd (poll_loop ts w')) \<and>
         poll_loop [Poll (Parses data) fs] w = (Polling, w') \<and>
         poll_loop (Poll (Parses data) fs # ts) w = poll_loop ts w' \<and>
         (event_result data2 = Some r2 \<and> r2 \<noteq> [] \<and>
          result_key r2 (event_timestamp data2) \<notin> processed_results w' \<and>
          map_of (ACTION_MAPPINGS w) (JStr r2) = Some a2 \<and> command a2 = JStr c2 \<longrightarrow>
            poll_loop [Poll (Parses data) fs, Poll (Parses data2) None] w =
              (Polling, snd (process_result None data2 w')) \<and>
            fst (process_result None data2 w') = Inr True \<and>
            queue_file (snd (poll_loop [Poll (Parses data) fs, Poll (Parses data2) None] w)) =
              queue_file w @ c2 @ [CHR 0x0A])"
proof -
  have d: "fst (process_result fs data w) = Inr True"
    using ev fresh mapped by (rule process_result_dispatch(1))
  have d0: "fst (process_result None data w) = Inr True"
    using ev fresh mapped by (rule process_result_dispatch(1))
  have k: "result_key r (event_timestamp data) \<in> processed_results w'"
    using process_result_dispatch(2)[OF ev fresh mapped, of fs] w' by simp
  have q: "queue_file w' = queue_file w"
    using process_result_dispatch(3)[OF ev fresh mapped, of fs] w' write_one_failed[OF failed]
    by simp
  have s: "process_result fs' data w' = (Inr False, w')"
    using ev(1) k by (rule process_result_seen)
  have "result_key r (event_timestamp data) \<in> processed_results (snd (poll_loop ts w'))"
    using k poll_loop_processed_mono[of w' ts] by auto
  with ev(1) have never: "process_result fs' data (snd (poll_loop ts w')) =
      (Inr False, snd (poll_loop ts w'))"
    by (rule process_result_seen)
  have t: "truthy data" using ev by (rule event_truthy)
  obtain x where "process_result fs data w = (x, w')"
    using w' by (cases "process_result fs data w") simp
  with d have p: "process_result fs data w = (Inr True, w')" by simp
  with t have one: "poll_loop [Poll (Parses data) fs] w = (Polling, w')"
    and step: "poll_loop (Poll (Parses data) fs # ts) w = poll_loop ts w'" for ts
    by (simp_all add: read_data_file_def)
  have next_one: "poll_loop [Poll (Parses data) fs, Poll (Parses data2) None] w =
              (Polling, snd (process_result None data2 w')) \<and>
            fst (process_result None data2 w') = Inr True \<and>
            queue_file (snd (poll_loop [Poll (Parses data) fs, Poll (Parses data2) None] w)) =
              queue_file w @ c2 @ [CHR 0x0A]"
    if a: "event_result data2 = Some r2 \<and> r2 \<noteq> [] \<and>
          result_key r2 (event_timestamp data2) \<notin> processed_results w' \<and>
          map_of (ACTION_MAPPINGS w) (JStr r2) = Some a2 \<and> command a2 = JStr c2"
  proof -
    have m: "map_of (ACTION_MAPPINGS w') (JStr r2) = Some a2"
      using a w' by (simp add: process_result_keeps(2))
    have e2: "event_result data2 = Some r2" "r2 \<noteq> []" using a by simp_all
    have f2: "result_key r2 (event_timestamp data2) \<notin> processed_results w'" using a by simp
    have d2: "fst (process_result None data2 w') = Inr True"
      using e2 f2 m by (rule process_result_dispatch(1))
    have t2: "truthy data2" using e2 by (rule event_truthy)
    have l: "poll_loop [Poll (Parses data) fs, Poll (Parses data2) None] w =
        (Polling, snd (process_result None data2 w'))"
      using step[of "[Poll (Parses data2) None]"] poll_loop_dispatch_one[OF t2, of None w'] d2
      by simp
    have "queue_file (snd (process_result None data2 w')) =
        queue_file (snd (write_command_queue None [command a2] w'))"
      using e2 f2 m by (rule process_result_dispatch(3))
    with a q have "queue_file (snd (process_result None data2 w')) = queue_file w @ c2 @ [CHR 0x0A]"
      by (simp add: write_command_queue_def Let_def)
    with l d2 show ?thesis by simp
  qed
  have both: "fst (process_result fs data w) = fst (process_result None data w)"
    using d d0 by simp
  have later: "event_result data2 = Some r2 \<and> r2 \<noteq> [] \<and>
          result_key r2 (event_timestamp data2) \<notin> processed_results w' \<and>
          map_of (ACTION_MAPPINGS w) (JStr r2) = Some a2 \<and> command a2 = JStr c2 \<longrightarrow>
            poll_loop [Poll (Parses data) fs, Poll (Parses data2) None] w =
              (Polling, snd (process_result None data2 w')) \<and>
            fst (process_result None data2 w') = Inr True \<and>
            queue_file (snd (poll_loop [Poll (Parses data) fs, Poll (Parses data2) None] w)) =
              queue_file w @ c2 @ [CHR 0x0A]"
    by (rule impI) (rule next_one)
  from d both k q s never one step[of ts] later show ?thesis by (intro conjI)
qed

theorem write_failure_drops_event_witness:
  "fst (write_command_queue (Some OSError) [JStr ''CAST_FIRE''] example_world) = False \<and>
   fst (process_result (Some OSError) example_snapshot example_world) = Inr True \<and>
   processed_results (snd (process_result (Some OSError) example_snapshot example_world)) =
     {''Fire Rune_T1''} \<and>
   queue_file (snd (process_result (Some OSError) example_snapshot example_world)) = [] \<and>
   fst (process_result None example_snapshot
          (snd (process_result (Some OSError) example_snapshot example_world))) = Inr False \<and>
   poll_loop [Poll (Parses example_snapshot) (Some OSError)] example_world =
     (Polling, snd (process_result (Some OSError) example_snapshot example_world)) \<and>
   queue_file (snd (poll_loop
     [Poll (Parses example_snapshot) (Some OSError), Poll (Parses later_snapshot) None]
     example_world)) = ''CAST_FIRE'' @ [CHR 0x0A] \<and>
   processed_results (snd (poll_loop
     [Poll (Parses example_snapshot) (Some OSError), Poll (Parses later_snapshot) None]
     example_world)) = {''Fire Rune_T1'', ''Fire Rune_T2''}"
proof -
  let ?a = "\<lparr>command = JStr ''CAST_FIRE'', description = JStr ''Casts fire rune''\<rparr>"
  let ?w' = "snd (process_result (Some OSError) example_snapshot example_world)"
  let ?two = "poll_loop
     [Poll (Parses example_snapshot) (Some OSError), Poll (Parses later_snapshot) None]
     example_world"
  have h2: "''Fire Rune'' \<noteq> []" by simp
  have h5: "fst (write_command_queue (Some OSError) [command ?a] example_world) = False"
    by (simp add: write_command_queue_def Let_def)
  have q: "queue_file example_world = []" by (simp add: example_world_def)
  have p: "processed_results ?w' = {''Fire Rune_T1''}"
    using process_result_dispatch(2)[OF example_event h2 example_fresh example_mapped,
        of "Some OSError"]
    by (simp add: example_key example_world_def)
  have hyp: "event_result later_snapshot = Some ''Fire Rune'' \<and> ''Fire Rune'' \<noteq> [] \<and>
      result_key ''Fire Rune'' (event_timestamp later_snapshot) \<notin> processed_results ?w' \<and>
      map_of (ACTION_MAPPINGS example_world) (JStr ''Fire Rune'') = Some ?a \<and>
      command ?a = JStr ''CAST_FIRE''"
    by (simp add: later_event later_key p example_mapped)
  note t = write_failure_drops_event [OF example_event h2 example_fresh example_mapped h5 refl,
      of None "[]" later_snapshot "''Fire Rune''" ?a "''CAST_FIRE''"]
  from t have c1: "fst (process_result (Some OSError) example_snapshot example_world) = Inr True"
    and c4: "queue_file ?w' = queue_file example_world"
    and c5: "process_result None example_snapshot ?w' = (Inr False, ?w')"
    and c6: "poll_loop [Poll (Parses example_snapshot) (Some OSError)] example_world =
      (Polling, ?w')"
    by blast+
  from t hyp have c8: "?two = (Polling, snd (process_result None later_snapshot ?w'))"
    and c9: "queue_file (snd ?two) = queue_file example_world @ ''CAST_FIRE'' @ [CHR 0x0A]"
    by blast+
  have l: "processed_results (snd (process_result None later_snapshot ?w')) =
      {''Fire Rune_T1'', ''Fire Rune_T2''}"
    using process_result_dispatch(2)[OF later_event h2, of ?w' ?a None]
    by (auto simp: p later_key process_result_keeps(2) example_mapped)
  have g1: "fst (write_command_queue (Some OSError) [JStr ''CAST_FIRE''] example_world) = False"
    using h5 by simp
  have g4: "queue_file ?w' = []" using c4 q by simp
  have g5: "fst (process_result None example_snapshot ?w') = Inr False" using c5 by simp
  have g7: "queue_file (snd ?two) = ''CAST_FIRE'' @ [CHR 0x0A]" using c9 q by simp
  have g8: "processed_results (snd ?two) = {''Fire Rune_T1'', ''Fire Rune_T2''}"
    using c8 l by simp
  from g1 c1 p g4 g5 c6 g7 g8 show ?thesis by (intro conjI)
qed

text \<open>
  C6. \<open>read_data_file\<close> returns \<open>None\<close> when the data file does not exist and when its
  content does not parse (JSONDecodeError), changing nothing; whatever exception the
  read raises, it returns \<open>None\<close> and raises nothing. A read that parses returns the
  parsed value, also right after a read that did not parse; and after any number of
  polls that found no file or a malformed one, the poll loop handles a valid snapshot
  exactly as it would have handled it at once.
\<close>

theorem read_data_file_tolerant:
  "read_data_file NoFile w = (JNull, w) \<and>
   read_data_file (Raises JSONDecodeError) w = (JNull, w) \<and>
   fst (read_data_file (Raises e) w) = JNull \<and>
   read_data_file (Parses v) (snd (read_data_file (Raises JSONDecodeError) w)) = (v, w) \<and>
   ((\<forall>t\<in>set ts. \<exists>fs. t = Poll NoFile fs \<or> t = Poll (Raises JSONDecodeError) fs) \<longrightarrow>
      poll_loop (ts @ Poll (Parses v) fs' # rest) w = poll_loop (Poll (Parses v) fs' # rest) w)"
  using poll_loop_no_data [of ts "Poll (Parses v) fs' # rest" w]
  by (simp add: read_data_file_def del: poll_loop.simps)

theorem read_data_file_tolerant_witness:
  "read_data_file NoFile example_world = (JNull, example_world) \<and>
   read_data_file (Raises JSONDecodeError) example_world = (JNull, example_world) \<and>
   read_data_file (Parses example_snapshot)
     (snd (read_data_file (Raises JSONDecodeError) example_world)) =
       (example_snapshot, example_world) \<and>
   queue_file (snd (poll_loop
     [Poll NoFile None, Poll (Raises JSONDecodeError) None, Poll (Parses example_snapshot) None]
     example_world)) = ''CAST_FIRE'' @ [CHR 0x0A]"
  using example_one_poll
    read_data_file_tolerant [of example_world OSError example_snapshot
      "[Poll NoFile None, Poll (Raises JSONDecodeError) None]" None "[]"]
  by (auto simp del: poll_loop.simps)

text \<open>
  C7. A snapshot whose result trims to the empty string is not dispatched, whatever its
  timestamp: \<open>process_result\<close> returns \<open>False\<close> and leaves the process, its queue file
  included, as it was. The result of a dict trims to the empty string exactly when the
  field (the empty string when the key is absent) is a string of white space only.
\<close>

theorem blank_result_not_dispatched:
  "(event_result data = Some [] \<longrightarrow> process_result fs data w = (Inr False, w)) \<and>
   (event_result (JObj d) = Some [] \<longleftrightarrow>
      (\<exists>s. dict_get d ''result'' (JStr []) = JStr s \<and> (\<forall>c\<in>set s. py_isspace c)))"
proof (intro conjI impI)
  assume "event_result data = Some []"
  then obtain d s
    where "data = JObj d" "dict_get d ''result'' (JStr []) = JStr s" "py_strip s = []"
    by (rule event_resultE)
  then show "process_result fs data w = (Inr False, w)"
    by (simp add: process_result_def Let_def)
next
  show "event_result (JObj d) = Some [] \<longleftrightarrow>
      (\<exists>s. dict_get d ''result'' (JStr []) = JStr s \<and> (\<forall>c\<in>set s. py_isspace c))"
    by (cases "dict_get d ''result'' (JStr [])") (simp_all add: event_result_def py_strip_blank)
qed

theorem blank_result_not_dispatched_witness:
  "event_result blank_snapshot = Some [] \<and>
   process_result None blank_snapshot example_world = (Inr False, example_world) \<and>
   process_result None (JObj [(''timestamp'', JStr ''T1'')]) example_world =
     (Inr False, example_world)"
proof -
  have h: "event_result blank_snapshot = Some []"
    by (simp add: blank_snapshot_def event_result_def dict_get_def py_strip_def py_isspace_def)
  have g: "event_result (JObj [(''timestamp'', JStr ''T1'')]) = Some []"
    by (simp add: event_result_def dict_get_def py_strip_def)
  from h g blank_result_not_dispatched [of blank_snapshot None example_world]
    blank_result_not_dispatched [of "JObj [(''timestamp'', JStr ''T1'')]" None example_world]
  show ?thesis by simp
qed

text \<open>
  C8. A snapshot whose trimmed result is not empty and is no key of the mapping table
  is not dispatched: \<open>process_result\<close> returns \<open>False\<close> (it does not raise) and leaves
  the process, its queue file included, as it was.
\<close>

theorem unmapped_result_not_dispatched:
  assumes "event_result data = Some r" and "r \<noteq> []"
    and "map_of (ACTION_MAPPINGS w) (JStr r) = None"
  shows "process_result fs data w = (Inr False, w)"
proof -
  from assms(1) obtain d s
    where "data = JObj d" "dict_get d ''result'' (JStr []) = JStr s" "py_strip s = r"
    by (rule event_resultE)
  with assms(3) show ?thesis by (simp add: process_result_def Let_def)
qed

theorem unmapped_result_not_dispatched_witness:
  "event_result unmapped_snapshot = Some ''Ice Rune'' \<and>
   map_of (ACTION_MAPPINGS example_world) (JStr ''Ice Rune'') = None \<and>
   process_result None unmapped_snapshot example_world = (Inr False, example_world)"
proof -
  have h1: "event_result unmapped_snapshot = Some ''Ice Rune''"
    by (simp add: unmapped_snapshot_def event_result_def dict_get_def py_strip_def py_isspace_def)
  have h2: "''Ice Rune'' \<noteq> []" by simp
  have h3: "map_of (ACTION_MAPPINGS example_world) (JStr ''Ice Rune'') = None"
    by (simp add: example_world_def)
  from h1 h3 unmapped_result_not_dispatched [OF h1 h2 h3, of None] show ?thesis by simp
qed

text \<open>
  C9 as stated does not hold: a command is written as it is, so a command that holds a
  newline appends more than one line. One successful call with one command, and one
  dispatch of a result mapped to such a command, append two lines.
\<close>

theorem command_with_newline_two_lines:
  "length [JStr (''CAST'' @ [CHR 0x0A] @ ''FIRE'')] = 1 \<and>
   fst (write_command_queue None [JStr (''CAST'' @ [CHR 0x0A] @ ''FIRE'')] example_world) = True \<and>
   queue_lines (queue_file (snd (write_command_queue None
     [JStr (''CAST'' @ [CHR 0x0A] @ ''FIRE'')] example_world))) = [''CAST'', ''FIRE''] \<and>
   queue_lines (queue_file (snd (main (Parses multiline_options)
     [Poll (Parses example_snapshot) None] []))) = [''CAST'', ''FIRE'']"
  by (simp add: run_defs example_defs multiline_options_def queue_lines_def)

text \<open>
  C9, amended. A call of \<open>write_command_queue\<close> that returns \<open>True\<close> was given strings only
  and leaves the queue file as its former text followed by each command and a newline,
  in the order given; with a file system that works, every list of strings is written
  so. When no command holds a newline (and the former text is empty or ends with one),
  that is exactly one line per command, after the former lines. In particular a dispatch
  of a result mapped to the command \<open>c\<close> appends \<open>c\<close> and a newline, the one line \<open>c\<close>
  when \<open>c\<close> holds no newline.
\<close>

theorem write_command_queue_appends:
  "(write_command_queue fs commands w = (True, w') \<longrightarrow>
      (\<exists>cmds. commands = map JStr cmds \<and>
         w' = w\<lparr>queue_file := queue_file w @ concat (map (\<lambda>c. c @ [CHR 0x0A]) cmds),
                effects := effects w @ [Emitted commands]\<rparr>)) \<and>
   write_command_queue None (map JStr cmds) w =
     (True, w\<lparr>queue_file := queue_file w @ concat (map (\<lambda>c. c @ [CHR 0x0A]) cmds),
              effects := effects w @ [Emitted (map JStr cmds)]\<rparr>) \<and>
   ((\<forall>c\<in>set cmds. CHR 0x0A \<notin> set c) \<and> (queue_file w = [] \<or> last (queue_file w) = CHR 0x0A) \<longrightarrow>
      queue_lines (queue_file (snd (write_command_queue None (map JStr cmds) w))) =
        queue_lines (queue_file w) @ cmds) \<and>
   (event_result data = Some r \<and> r \<noteq> [] \<and>
    result_key r (event_timestamp data) \<notin> processed_results w \<and>
    map_of (ACTION_MAPPINGS w) (JStr r) = Some a \<and> command a = JStr c \<longrightarrow>
      queue_file (snd (process_result None data w)) = queue_file w @ c @ [CHR 0x0A] \<and>
      (CHR 0x0A \<notin> set c \<and> (queue_file w = [] \<or> last (queue_file w) = CHR 0x0A) \<longrightarrow>
         queue_lines (queue_file (snd (process_result None data w))) =
           queue_lines (queue_file w) @ [c]))"
proof (intro conjI impI)
  assume ok: "write_command_queue fs commands w = (True, w')"
  then have "fs = None"
    by (auto simp: write_command_queue_def Let_def split: option.splits)
  with ok obtain f where f: "write_all commands (queue_file w) = (None, f)"
    and w': "w' = w\<lparr>queue_file := f, effects := effects w @ [Emitted commands]\<rparr>"
    by (auto simp: write_command_queue_def Let_def split: option.splits prod.splits)
  from f obtain cmds where c: "commands = map JStr cmds"
    by (auto dest: write_all_None)
  with f have "f = queue_file w @ concat (map (\<lambda>c. c @ [CHR 0x0A]) cmds)"
    by (simp add: write_all_strings)
  with c w' show "\<exists>cmds. commands = map JStr cmds \<and>
         w' = w\<lparr>queue_file := queue_file w @ concat (map (\<lambda>c. c @ [CHR 0x0A]) cmds),
                effects := effects w @ [Emitted commands]\<rparr>"
    by auto
next
  show s: "write_command_queue None (map JStr cmds) w =
     (True, w\<lparr>queue_file := queue_file w @ concat (map (\<lambda>c. c @ [CHR 0x0A]) cmds),
              effects := effects w @ [Emitted (map JStr cmds)]\<rparr>)"
    by (simp add: write_command_queue_def Let_def write_all_strings)
  assume "(\<forall>c\<in>set cmds. CHR 0x0A \<notin> set c) \<and> (queue_file w = [] \<or> last (queue_file w) = CHR 0x0A)"
  then show "queue_lines (queue_file (snd (write_command_queue None (map JStr cmds) w))) =
        queue_lines (queue_file w) @ cmds"
    by (simp add: s queue_lines_append)
next
  assume a: "event_result data = Some r \<and> r \<noteq> [] \<and>
    result_key r (event_timestamp data) \<notin> processed_results w \<and>
    map_of (ACTION_MAPPINGS w) (JStr r) = Some a \<and> command a = JStr c"
  then have "queue_file (snd (process_result None data w)) =
      queue_file (snd (write_command_queue None [command a] w))"
    by (intro process_result_dispatch(3)) auto
  with a show q: "queue_file (snd (process_result None data w)) = queue_file w @ c @ [CHR 0x0A]"
    by (simp add: write_command_queue_def Let_def)
  assume "CHR 0x0A \<notin> set c \<and> (queue_file w = [] \<or> last (queue_file w) = CHR 0x0A)"
  then show "queue_lines (queue_file (snd (process_result None data w))) =
           queue_lines (queue_file w) @ [c]"
    using queue_lines_append[of "queue_file w" "[c]"] by (simp add: q)
qed

theorem write_command_queue_appends_witness:
  "write_command_queue None [JStr ''A'', JStr ''B''] example_world =
     (True, example_world\<lparr>queue_file := ''A'' @ [CHR 0x0A] @ ''B'' @ [CHR 0x0A],
                          effects := [Emitted [JStr ''A'', JStr ''B'']]\<rparr>) \<and>
   queue_lines (queue_file (snd (write_command_queue None [JStr ''A'', JStr ''B'']
     example_world))) = [''A'', ''B''] \<and>
   event_result example_snapshot = Some ''Fire Rune'' \<and>
   map_of (ACTION_MAPPINGS example_world) (JStr ''Fire Rune'') =
     Some \<lparr>command = JStr ''CAST_FIRE'', description = JStr ''Casts fire rune''\<rparr> \<and>
   queue_file (snd (process_result None example_snapshot example_world)) =
     ''CAST_FIRE'' @ [CHR 0x0A] \<and>
   queue_lines (queue_file (snd (process_result None example_snapshot example_world))) =
     [''CAST_FIRE'']"
proof -
  let ?a = "\<lparr>command = JStr ''CAST_FIRE'', description = JStr ''Casts fire rune''\<rparr>"
  have q: "queue_file example_world = []" and e: "effects example_world = []"
    by (simp_all add: example_world_def)
  have l: "queue_lines [] = []" by (simp add: queue_lines_def)
  note t = write_command_queue_appends [of None "[JStr ''A'', JStr ''B'']" example_world
      "example_world\<lparr>queue_file := ''A'' @ [CHR 0x0A] @ ''B'' @ [CHR 0x0A],
                      effects := [Emitted [JStr ''A'', JStr ''B'']]\<rparr>" "[''A'', ''B'']"
      example_snapshot "''Fire Rune''" ?a "''CAST_FIRE''"]
  have nl: "CHR 0x0A \<notin> set ''CAST_FIRE''" "\<forall>c\<in>set [''A'', ''B'']. CHR 0x0A \<notin> set c" by simp_all
  have hyp: "event_result example_snapshot = Some ''Fire Rune'' \<and> ''Fire Rune'' \<noteq> [] \<and>
      result_key ''Fire Rune'' (event_timestamp example_snapshot)
        \<notin> processed_results example_world \<and>
      map_of (ACTION_MAPPINGS example_world) (JStr ''Fire Rune'') = Some ?a \<and>
      command ?a = JStr ''CAST_FIRE''"
    using example_event example_fresh example_mapped by simp
  have ok: "(\<forall>c\<in>set [''A'', ''B'']. CHR 0x0A \<notin> set c) \<and>
      (queue_file example_world = [] \<or> last (queue_file example_world) = CHR 0x0A)"
    "CHR 0x0A \<notin> set ''CAST_FIRE'' \<and>
      (queue_file example_world = [] \<or> last (queue_file example_world) = CHR 0x0A)"
    using q by simp_all
  from t have g1: "write_command_queue None (map JStr [''A'', ''B'']) example_world =
     (True, example_world\<lparr>queue_file := queue_file example_world @
              concat (map (\<lambda>c. c @ [CHR 0x0A]) [''A'', ''B'']),
            effects := effects example_world @ [Emitted (map JStr [''A'', ''B''])]\<rparr>)"
    by blast
  from t ok(1) have g2: "queue_lines (queue_file (snd (write_command_queue None
      (map JStr [''A'', ''B'']) example_world))) = queue_lines (queue_file example_world) @ [''A'', ''B'']"
    by blast
  from t hyp have g5: "queue_file (snd (process_result None example_snapshot example_world)) =
      queue_file example_world @ ''CAST_FIRE'' @ [CHR 0x0A]"
    by blast
  from t hyp ok(2) have g6: "queue_lines (queue_file (snd (process_result None example_snapshot
      example_world))) = queue_lines (queue_file example_world) @ [''CAST_FIRE'']"
    by blast
  from g1 have "write_command_queue None [JStr ''A'', JStr ''B''] example_world =
     (True, example_world\<lparr>queue_file := ''A'' @ [CHR 0x0A] @ ''B'' @ [CHR 0x0A],
                          effects := [Emitted [JStr ''A'', JStr ''B'']]\<rparr>)"
    by (simp add: q e)
  moreover from g2 have "queue_lines (queue_file (snd (write_command_queue None
      [JStr ''A'', JStr ''B''] example_world))) = [''A'', ''B'']"
    by (simp add: q l)
  moreover note example_event example_mapped
  moreover from g5 have "queue_file (snd (process_result None example_snapshot example_world)) =
     ''CAST_FIRE'' @ [CHR 0x0A]"
    by (simp add: q)
  moreover from g6 have "queue_lines (queue_file (snd (process_result None example_snapshot
      example_world))) = [''CAST_FIRE'']"
    by (simp add: q l)
  ultimately show ?thesis by (intro conjI)
qed

text \<open>
  C10. A configuration that parses as an object without the field \<open>options\<close> loads
  successfully and stores nothing: \<open>load_action_mappings\<close> returns \<open>True\<close> and leaves the
  table as it was, which at the start of the process is empty. \<open>run\<close> then enters the
  poll loop, and whatever the loop reads, nothing is dispatched: the queue file keeps
  its text and the processed set stays empty; with an empty table \<open>process_result\<close>
  never returns \<open>True\<close>.
\<close>

theorem no_options_field_loads_nothing:
  assumes "map_of d ''options'' = None"
  shows "load_action_mappings (Parses (JObj d)) w = (True, w) \<and>
         run (Parses (JObj d)) ts (init_world q) =
           poll_loop ts (emit [Banner, Rule, LoadedCount 0, Watching] (init_world q)) \<and>
         ACTION_MAPPINGS (snd (load_action_mappings (Parses (JObj d)) (init_world q))) = [] \<and>
         queue_file (snd (main (Parses (JObj d)) ts q)) = q \<and>
         processed_results (snd (main (Parses (JObj d)) ts q)) = {} \<and>
         (ACTION_MAPPINGS w = [] \<longrightarrow> fst (process_result fs data w) \<noteq> Inr True)"
proof -
  have l: "load_action_mappings (Parses (JObj d)) w = (True, w)" for w
    using assms
    by (simp add: load_action_mappings_def options_of_def dict_get_def py_iter_def)
  have r: "run (Parses (JObj d)) ts (init_world q) =
           poll_loop ts (emit [Banner, Rule, LoadedCount 0, Watching] (init_world q))"
    by (simp add: run_def l init_world_def emit_def)
  have i: "ACTION_MAPPINGS (emit [Banner, Rule, LoadedCount 0, Watching] (init_world q)) = []"
    by (simp add: init_world_def)
  have m: "snd (main (Parses (JObj d)) ts q) =
      snd (poll_loop ts (emit [Banner, Rule, LoadedCount 0, Watching] (init_world q)))"
    by (simp add: main_def r split: prod.splits status.splits)
  have "queue_file (snd (main (Parses (JObj d)) ts q)) = q"
    "processed_results (snd (main (Parses (JObj d)) ts q)) = {}"
    using poll_loop_no_mappings[OF i, of ts] by (simp_all add: m init_world_def)
  moreover have "ACTION_MAPPINGS (snd (load_action_mappings (Parses (JObj d)) (init_world q))) = []"
    by (simp add: l init_world_def)
  ultimately show ?thesis
    using l r process_result_no_mappings(1) by simp
qed

theorem no_options_field_loads_nothing_witness:
  "map_of [(''wheel'', JArr [])] ''options'' = None \<and>
   load_action_mappings (Parses (JObj [(''wheel'', JArr [])])) (init_world ''old'') =
     (True, init_world ''old'') \<and>
   queue_file (snd (main (Parses (JObj [(''wheel'', JArr [])]))
     [Poll (Parses example_snapshot) None] ''old'')) = ''old'' \<and>
   fst (process_result None example_snapshot (init_world ''old'')) \<noteq> Inr True"
proof -
  have h: "map_of [(''wheel'', JArr [])] ''options'' = None" by simp
  have e: "ACTION_MAPPINGS (init_world ''old'') = []" by (simp add: init_world_def)
  from h e no_options_field_loads_nothing [OF h, of "init_world ''old''"
      "[Poll (Parses example_snapshot) None]" "''old''" None example_snapshot]
  show ?thesis by (auto simp del: poll_loop.simps)
qed

end
